theory Spec2Isabelle
  imports Main
begin

section \<open>The document-to-chunk workflow of the loaders and splitters notebook\<close>

text \<open>
  The notebook defines one function of its own, \<^verbatim>\<open>process_documents_workflow\<close>:
  \<^verbatim>\<open>
  def process_documents_workflow(documents: List[Document], splitter) -> List[Document]:
      all_chunks = []
      for doc in documents:
          chunks = splitter.split_text(doc.page_content)
          for i, chunk in enumerate(chunks):
              chunk_doc = Document(
                  page_content=chunk,
                  metadata={
                      **doc.metadata,
                      'chunk_index': i,
                      'total_chunks': len(chunks)
                  }
              )
              all_chunks.append(chunk_doc)
      return all_chunks
  \<close>
  Everything else it does is a call into a third-party library (the loaders and the
  three text splitters), whose code is not part of the repository.
\<close>

subsection \<open>Data model\<close>

text \<open>
  A metadata value is what the loaders of the notebook put into a metadata dictionary
  (a string, an integer, a list, or \<^verbatim>\<open>None\<close>) or what the workflow adds (a Python
  integer, which is unbounded).
\<close>

datatype meta_value = NoneV | IntV int | StrV string | ListV "meta_value list"

text \<open>
  A metadata dictionary has string keys. Python compares dictionaries without regard
  to insertion order, so a dictionary is a finite map.
\<close>

type_synonym metadata_dict = "string \<rightharpoonup> meta_value"

record Document =
  page_content :: string
  metadata :: metadata_dict

text \<open>
  The \<^verbatim>\<open>splitter\<close> argument is any object with a \<^verbatim>\<open>split_text\<close> method. The
  method either returns the list of chunk texts or raises; an exception is the value
  \<open>Inl e\<close>. The method is taken to be a function of the text it is given.
\<close>

type_synonym 'e splitter = "string \<Rightarrow> 'e + string list"

subsection \<open>The workflow\<close>

text \<open>
  The dictionary display \<^verbatim>\<open>{**doc.metadata, 'chunk_index': i, 'total_chunks': len(chunks)}\<close>
  copies the parent's entries and then stores the two derived keys, in that order.
\<close>

definition chunk_doc :: "Document \<Rightarrow> nat \<Rightarrow> nat \<Rightarrow> string \<Rightarrow> Document" where
  "chunk_doc doc i n chunk =
     \<lparr>page_content = chunk,
      metadata = (metadata doc)(''chunk_index'' \<mapsto> IntV (int i),
                                ''total_chunks'' \<mapsto> IntV (int n))\<rparr>"

text \<open>
  The inner loop \<^verbatim>\<open>for i, chunk in enumerate(chunks)\<close>: the third argument is what is
  left of \<^verbatim>\<open>enumerate(chunks)\<close>, the second is \<^verbatim>\<open>len(chunks)\<close>, the last is
  \<^verbatim>\<open>all_chunks\<close>, to which \<^verbatim>\<open>append\<close> adds at the end.
\<close>

fun inner_loop :: "Document \<Rightarrow> nat \<Rightarrow> (nat \<times> string) list \<Rightarrow> Document list \<Rightarrow> Document list" where
  "inner_loop doc n [] all_chunks = all_chunks"
| "inner_loop doc n ((i, chunk) # rest) all_chunks =
     inner_loop doc n rest (all_chunks @ [chunk_doc doc i n chunk])"

text \<open>
  The outer loop \<^verbatim>\<open>for doc in documents\<close>. An exception raised by \<^verbatim>\<open>split_text\<close> is
  not caught anywhere in the function, so it ends the call.
\<close>

fun outer_loop :: "'e splitter \<Rightarrow> Document list \<Rightarrow> Document list \<Rightarrow> 'e + Document list" where
  "outer_loop splitter [] all_chunks = Inr all_chunks"
| "outer_loop splitter (doc # documents) all_chunks =
     (case splitter (page_content doc) of
        Inl e \<Rightarrow> Inl e
      | Inr chunks \<Rightarrow>
          outer_loop splitter documents
            (inner_loop doc (length chunks) (List.enumerate 0 chunks) all_chunks))"

definition process_documents_workflow :: "Document list \<Rightarrow> 'e splitter \<Rightarrow> 'e + Document list" where
  "process_documents_workflow documents splitter = outer_loop splitter documents []"

subsection \<open>Reading the derived keys, and the specification's view of the output\<close>

text \<open>What a consumer reads back from a chunk's metadata.\<close>

definition chunk_index_of :: "Document \<Rightarrow> int option" where
  "chunk_index_of c = (case metadata c ''chunk_index'' of Some (IntV i) \<Rightarrow> Some i | _ \<Rightarrow> None)"

definition total_chunks_of :: "Document \<Rightarrow> int option" where
  "total_chunks_of c = (case metadata c ''total_chunks'' of Some (IntV n) \<Rightarrow> Some n | _ \<Rightarrow> None)"

text \<open>
  The specification's per-document chunk list: the chunk text at position \<open>i\<close> out of
  \<open>n\<close> becomes a chunk document with the merged metadata.
\<close>

definition chunk_docs :: "Document \<Rightarrow> string list \<Rightarrow> Document list" where
  "chunk_docs doc chunks =
     map (\<lambda>i. chunk_doc doc i (length chunks) (chunks ! i)) [0..<length chunks]"

text \<open>
  Sequencing of two results that may each be an exception: the first exception wins,
  otherwise the outputs are joined.
\<close>

definition then_append :: "'e + 'a list \<Rightarrow> 'e + 'a list \<Rightarrow> 'e + 'a list" where
  "then_append r1 r2 =
     (case r1 of
        Inl e \<Rightarrow> Inl e
      | Inr xs \<Rightarrow> (case r2 of Inl e \<Rightarrow> Inl e | Inr ys \<Rightarrow> Inr (xs @ ys)))"

text \<open>
  The specification asks that the exception surfaced by a failed run carries an index
  locating the offending document. \<open>error_locates locate splitter docs\<close> says that
  reading the surfaced exception with \<open>locate\<close> gives the position of a document of
  \<open>docs\<close> on which the strategy raises.
\<close>

definition error_locates :: "('e \<Rightarrow> nat) \<Rightarrow> 'e splitter \<Rightarrow> Document list \<Rightarrow> bool" where
  "error_locates locate splitter docs =
     (case process_documents_workflow docs splitter of
        Inr out \<Rightarrow> True
      | Inl e \<Rightarrow> locate e < length docs \<and> isl (splitter (page_content (docs ! locate e))))"

subsection \<open>Example inputs\<close>

text \<open>
  A strategy used to instantiate the theorems: it raises on the text \<open>bad\<close> and
  otherwise returns the characters of the text as one-character chunks (so the empty
  text has no chunk).
\<close>

definition example_splitter :: "string splitter" where
  "example_splitter text =
     (if text = ''bad'' then Inl ''boom'' else Inr (map (\<lambda>c. [c]) text))"

definition doc_a :: Document where
  "doc_a = \<lparr>page_content = ''xy'', metadata = [''source'' \<mapsto> StrV ''a.txt'']\<rparr>"

definition doc_b :: Document where
  "doc_b = \<lparr>page_content = ''pqr'',
            metadata = [''source'' \<mapsto> StrV ''b.txt'', ''chunk_index'' \<mapsto> StrV ''stale'']\<rparr>"

definition doc_empty :: Document where
  "doc_empty = \<lparr>page_content = [], metadata = [''source'' \<mapsto> StrV ''e.txt'']\<rparr>"

definition doc_bad1 :: Document where
  "doc_bad1 = \<lparr>page_content = ''bad'', metadata = [''source'' \<mapsto> StrV ''c.txt'']\<rparr>"

definition doc_bad2 :: Document where
  "doc_bad2 = \<lparr>page_content = ''bad'', metadata = [''source'' \<mapsto> StrV ''d.txt'']\<rparr>"

section \<open>Properties\<close>

subsection \<open>The loops as list functions\<close>

lemma inner_loop_append:
  "inner_loop doc n ics acc = acc @ map (\<lambda>(i, chunk). chunk_doc doc i n chunk) ics"
  by (induction ics arbitrary: acc) auto

lemma enumerate_as_upt:
  "List.enumerate k xs = map (\<lambda>i. (k + i, xs ! i)) [0..<length xs]"
  by (rule nth_equalityI) (simp_all add: nth_enumerate_eq)

lemma inner_loop_chunk_docs:
  "inner_loop doc (length chunks) (List.enumerate 0 chunks) acc = acc @ chunk_docs doc chunks"
  by (simp add: inner_loop_append chunk_docs_def enumerate_as_upt)

lemma outer_loop_acc:
  "outer_loop splitter docs acc = then_append (Inr acc) (outer_loop splitter docs [])"
proof (induction docs arbitrary: acc)
  case Nil
  show ?case by (simp add: then_append_def)
next
  case (Cons d docs)
  show ?case
  proof (cases "splitter (page_content d)")
    case (Inl e)
    then show ?thesis by (simp add: then_append_def)
  next
    case (Inr chunks)
    have a: "outer_loop splitter (d # docs) acc =
             then_append (Inr (acc @ chunk_docs d chunks)) (outer_loop splitter docs [])"
      using Cons.IH [of "acc @ chunk_docs d chunks"] Inr
      by (simp add: inner_loop_chunk_docs)
    have b: "outer_loop splitter (d # docs) [] =
             then_append (Inr (chunk_docs d chunks)) (outer_loop splitter docs [])"
      using Cons.IH [of "chunk_docs d chunks"] Inr
      by (simp add: inner_loop_chunk_docs)
    show ?thesis
      unfolding a b by (cases "outer_loop splitter docs []") (simp_all add: then_append_def)
  qed
qed

lemma workflow_Nil: "process_documents_workflow [] splitter = Inr []"
  by (simp add: process_documents_workflow_def)

lemma workflow_Cons:
  "process_documents_workflow (d # docs) splitter =
     (case splitter (page_content d) of
        Inl e \<Rightarrow> Inl e
      | Inr chunks \<Rightarrow>
          then_append (Inr (chunk_docs d chunks)) (process_documents_workflow docs splitter))"
proof (cases "splitter (page_content d)")
  case (Inl e)
  then show ?thesis by (simp add: process_documents_workflow_def)
next
  case (Inr chunks)
  then show ?thesis
    using outer_loop_acc [of splitter docs "chunk_docs d chunks"]
    by (simp add: process_documents_workflow_def inner_loop_chunk_docs)
qed

lemma workflow_append:
  "process_documents_workflow (ds1 @ ds2) splitter =
     then_append (process_documents_workflow ds1 splitter)
                 (process_documents_workflow ds2 splitter)"
proof (induction ds1)
  case Nil
  show ?case
    by (cases "process_documents_workflow ds2 splitter")
       (simp_all add: workflow_Nil then_append_def)
next
  case (Cons d ds1)
  show ?case
    by (cases "splitter (page_content d)";
        cases "process_documents_workflow ds1 splitter";
        cases "process_documents_workflow ds2 splitter")
       (simp_all add: workflow_Cons Cons.IH then_append_def)
qed

subsection \<open>One parent document inside a run\<close>

lemma length_chunk_docs [simp]: "length (chunk_docs doc chunks) = length chunks"
  by (simp add: chunk_docs_def)

lemma nth_chunk_docs:
  "i < length chunks \<Longrightarrow>
     chunk_docs doc chunks ! i = chunk_doc doc i (length chunks) (chunks ! i)"
  by (simp add: chunk_docs_def)

lemma chunk_docs_Nil [simp]: "chunk_docs doc [] = []"
  by (simp add: chunk_docs_def)

lemma page_content_chunk_docs: "map page_content (chunk_docs doc chunks) = chunks"
  by (rule nth_equalityI) (simp_all add: nth_chunk_docs chunk_doc_def)

lemma chunk_index_of_chunk_doc [simp]:
  "chunk_index_of (chunk_doc doc i n chunk) = Some (int i)"
  by (simp add: chunk_index_of_def chunk_doc_def)

lemma total_chunks_of_chunk_doc [simp]:
  "total_chunks_of (chunk_doc doc i n chunk) = Some (int n)"
  by (simp add: total_chunks_of_def chunk_doc_def)

lemma chunk_index_of_chunk_docs:
  "map chunk_index_of (chunk_docs doc chunks) = map (\<lambda>i. Some (int i)) [0..<length chunks]"
  by (simp add: chunk_docs_def)

lemma total_chunks_of_chunk_docs:
  "c \<in> set (chunk_docs doc chunks) \<Longrightarrow> total_chunks_of c = Some (int (length chunks))"
  by (auto simp: chunk_docs_def)

lemma chunk_index_in_range:
  "c \<in> set (chunk_docs doc chunks) \<Longrightarrow>
     \<exists>i. chunk_index_of c = Some i \<and> 0 \<le> i \<and> i < int (length chunks)"
  by (auto simp: chunk_docs_def)

text \<open>
  A run that returns has split every document; its output is the output for the
  documents before a given parent, that parent's chunk documents, and the output for
  the documents after it.
\<close>

lemma workflow_split_at:
  assumes "process_documents_workflow (ds1 @ d # ds2) splitter = Inr out"
  shows "\<exists>out1 chunks out2.
           process_documents_workflow ds1 splitter = Inr out1 \<and>
           splitter (page_content d) = Inr chunks \<and>
           process_documents_workflow ds2 splitter = Inr out2 \<and>
           out = out1 @ chunk_docs d chunks @ out2"
  using assms
  by (auto simp: workflow_append workflow_Cons then_append_def split: sum.splits)

lemma segment_of_append:
  "take (length ys) (drop (length xs) (xs @ ys @ zs)) = ys"
  by simp

text \<open>A run that returns when the strategy returns on every document.\<close>

lemma workflow_all_split:
  "map (\<lambda>d. splitter (page_content d)) docs = map Inr css \<Longrightarrow>
     process_documents_workflow docs splitter = Inr (concat (map2 chunk_docs docs css))"
proof (induction docs arbitrary: css)
  case Nil
  then show ?case by (simp add: workflow_Nil)
next
  case (Cons d docs)
  from Cons.prems obtain cs css' where
    css: "css = cs # css'" and
    d: "splitter (page_content d) = Inr cs" and
    rest: "map (\<lambda>d. splitter (page_content d)) docs = map Inr css'"
    by (cases css) auto
  show ?case
    by (simp add: workflow_Cons d css Cons.IH [OF rest] then_append_def)
qed

lemma page_content_concat_chunk_docs:
  "length docs = length css \<Longrightarrow>
     map page_content (concat (map2 chunk_docs docs css)) = concat css"
  by (induction docs css rule: list_induct2) (simp_all add: page_content_chunk_docs)

lemma length_concat_chunk_docs:
  "length docs = length css \<Longrightarrow>
     length (concat (map2 chunk_docs docs css)) = sum_list (map length css)"
  by (induction docs css rule: list_induct2) simp_all

text \<open>The metadata of one chunk document.\<close>

lemma metadata_chunk_doc_merge:
  "metadata (chunk_doc doc i n chunk) =
     metadata doc ++ [''chunk_index'' \<mapsto> IntV (int i), ''total_chunks'' \<mapsto> IntV (int n)]"
  by (simp add: chunk_doc_def)

lemma metadata_chunk_doc_other:
  "k \<noteq> ''chunk_index'' \<Longrightarrow> k \<noteq> ''total_chunks'' \<Longrightarrow>
     metadata (chunk_doc doc i n chunk) k = metadata doc k"
  by (simp add: chunk_doc_def)

lemma metadata_chunk_doc_derived:
  "metadata (chunk_doc doc i n chunk) ''chunk_index'' = Some (IntV (int i))"
  "metadata (chunk_doc doc i n chunk) ''total_chunks'' = Some (IntV (int n))"
  by (simp_all add: chunk_doc_def)

text \<open>A run in which the strategy raises.\<close>

lemma workflow_returns_if_all_split:
  "\<forall>x \<in> set docs. \<not> isl (splitter (page_content x)) \<Longrightarrow>
     \<exists>out. process_documents_workflow docs splitter = Inr out"
proof (induction docs)
  case Nil
  show ?case by (simp add: workflow_Nil)
next
  case (Cons d docs)
  then obtain out where rest: "process_documents_workflow docs splitter = Inr out"
    by auto
  from Cons.prems obtain chunks where "splitter (page_content d) = Inr chunks"
    by (cases "splitter (page_content d)") auto
  with rest show ?case
    by (simp add: workflow_Cons then_append_def)
qed

lemma workflow_first_failure:
  assumes "\<forall>x \<in> set ds1. \<not> isl (splitter (page_content x))"
    and "splitter (page_content d) = Inl e"
  shows "process_documents_workflow (ds1 @ d # ds2) splitter = Inl e"
proof -
  from workflow_returns_if_all_split [OF assms(1)] obtain out1 where
    "process_documents_workflow ds1 splitter = Inr out1" ..
  then show ?thesis
    using assms(2) by (simp add: workflow_append workflow_Cons then_append_def)
qed

subsection \<open>The example inputs, evaluated\<close>

lemmas example_defs =
  example_splitter_def doc_a_def doc_b_def doc_empty_def doc_bad1_def doc_bad2_def

lemma example_run_ab:
  "process_documents_workflow [doc_a, doc_b] example_splitter =
     Inr (chunk_docs doc_a [''x'', ''y''] @ chunk_docs doc_b [''p'', ''q'', ''r''])"
  by (simp add: workflow_Cons workflow_Nil then_append_def example_defs)

section \<open>The claims\<close>

subsection \<open>Chunk indices and chunk counts\<close>

text \<open>
  Claim C1. For every document sequence and every strategy on which the workflow
  returns, the output is the output for the documents before a parent, then the chunk
  documents of that parent, then the output for the documents after it, and nothing
  else. The chunk documents of the parent are exactly as many as the one call of the
  strategy on the parent returned chunks, they hold these chunks in order, their
  \<open>chunk_index\<close> values are exactly \<open>0, 1, \<dots>, total_chunks - 1\<close> in this order, each
  of them lies in \<open>[0, total_chunks)\<close>, and every one records as \<open>total_chunks\<close> the
  number of chunks that call returned.
\<close>

theorem chunk_index_range_and_total:
  assumes "process_documents_workflow (ds1 @ d # ds2) splitter = Inr out"
  shows "\<exists>out1 chunks out2 seg.
           process_documents_workflow ds1 splitter = Inr out1 \<and>
           splitter (page_content d) = Inr chunks \<and>
           process_documents_workflow ds2 splitter = Inr out2 \<and>
           out = out1 @ seg @ out2 \<and>
           seg = take (length chunks) (drop (length out1) out) \<and>
           length seg = length chunks \<and>
           length out = length out1 + length chunks + length out2 \<and>
           map page_content seg = chunks \<and>
           map chunk_index_of seg = map (\<lambda>i. Some (int i)) [0..<length chunks] \<and>
           (\<forall>c \<in> set seg.
              total_chunks_of c = Some (int (length chunks)) \<and>
              (\<exists>i. chunk_index_of c = Some i \<and> 0 \<le> i \<and> i < int (length chunks)))"
proof -
  from workflow_split_at [OF assms] obtain out1 chunks out2 where
    pre: "process_documents_workflow ds1 splitter = Inr out1" and
    sp: "splitter (page_content d) = Inr chunks" and
    post: "process_documents_workflow ds2 splitter = Inr out2" and
    out: "out = out1 @ chunk_docs d chunks @ out2"
    by blast
  let ?seg = "chunk_docs d chunks"
  have seg: "?seg = take (length chunks) (drop (length out1) out)"
    unfolding out using segment_of_append [of ?seg out1 out2] by simp
  have len: "length out = length out1 + length chunks + length out2"
    unfolding out by simp
  have body:
    "process_documents_workflow ds1 splitter = Inr out1 \<and>
     splitter (page_content d) = Inr chunks \<and>
     process_documents_workflow ds2 splitter = Inr out2 \<and>
     out = out1 @ ?seg @ out2 \<and>
     ?seg = take (length chunks) (drop (length out1) out) \<and>
     length ?seg = length chunks \<and>
     length out = length out1 + length chunks + length out2 \<and>
     map page_content ?seg = chunks \<and>
     map chunk_index_of ?seg = map (\<lambda>i. Some (int i)) [0..<length chunks] \<and>
     (\<forall>c \<in> set ?seg.
        total_chunks_of c = Some (int (length chunks)) \<and>
        (\<exists>i. chunk_index_of c = Some i \<and> 0 \<le> i \<and> i < int (length chunks)))"
    using pre sp post out seg len page_content_chunk_docs [of d chunks]
      chunk_index_of_chunk_docs [of d chunks] total_chunks_of_chunk_docs [of _ d chunks]
      chunk_index_in_range [of _ d chunks] length_chunk_docs [of d chunks]
    by blast
  then show ?thesis by blast
qed

text \<open>
  The theorem at the documents \<open>doc_a, doc_b, doc_a\<close> and the parent in the middle:
  the output has 2 + 3 + 2 elements, and the three of the parent, which start at
  position 2, have the indices 0, 1, 2 and record 3.
\<close>

theorem chunk_index_range_and_total_witness:
  "process_documents_workflow ([doc_a] @ doc_b # [doc_a]) example_splitter =
     Inr (chunk_docs doc_a [''x'', ''y''] @ chunk_docs doc_b [''p'', ''q'', ''r'']
          @ chunk_docs doc_a [''x'', ''y''])
   \<and> length (chunk_docs doc_a [''x'', ''y''] @ chunk_docs doc_b [''p'', ''q'', ''r'']
          @ chunk_docs doc_a [''x'', ''y'']) = 2 + 3 + 2
   \<and> map page_content
         (take 3 (drop 2 (chunk_docs doc_a [''x'', ''y''] @ chunk_docs doc_b [''p'', ''q'', ''r'']
                           @ chunk_docs doc_a [''x'', ''y'']))) = [''p'', ''q'', ''r'']
   \<and> map chunk_index_of
         (take 3 (drop 2 (chunk_docs doc_a [''x'', ''y''] @ chunk_docs doc_b [''p'', ''q'', ''r'']
                           @ chunk_docs doc_a [''x'', ''y'']))) = [Some 0, Some 1, Some 2]
   \<and> map total_chunks_of
         (take 3 (drop 2 (chunk_docs doc_a [''x'', ''y''] @ chunk_docs doc_b [''p'', ''q'', ''r'']
                           @ chunk_docs doc_a [''x'', ''y'']))) = [Some 3, Some 3, Some 3]"
proof -
  let ?out = "chunk_docs doc_a [''x'', ''y''] @ chunk_docs doc_b [''p'', ''q'', ''r'']
              @ chunk_docs doc_a [''x'', ''y'']"
  have run: "process_documents_workflow ([doc_a] @ doc_b # [doc_a]) example_splitter = Inr ?out"
    by (simp add: workflow_Cons workflow_Nil then_append_def example_defs)
  from chunk_index_range_and_total [OF run] obtain out1 chunks out2 seg where
    pre: "process_documents_workflow [doc_a] example_splitter = Inr out1" and
    sp: "example_splitter (page_content doc_b) = Inr chunks" and
    post: "process_documents_workflow [doc_a] example_splitter = Inr out2" and
    segdef: "seg = take (length chunks) (drop (length out1) ?out)" and
    len: "length ?out = length out1 + length chunks + length out2" and
    pc: "map page_content seg = chunks" and
    idx: "map chunk_index_of seg = map (\<lambda>i. Some (int i)) [0..<length chunks]" and
    tot: "\<forall>c \<in> set seg. total_chunks_of c = Some (int (length chunks))"
    by blast
  have o1: "out1 = chunk_docs doc_a [''x'', ''y'']"
    using pre by (simp add: workflow_Cons workflow_Nil then_append_def example_defs)
  have o2: "out2 = chunk_docs doc_a [''x'', ''y'']"
    using post by (simp add: workflow_Cons workflow_Nil then_append_def example_defs)
  have ch: "chunks = [''p'', ''q'', ''r'']"
    using sp by (simp add: example_defs)
  have l1: "length out1 = 2" by (simp add: o1)
  have l2: "length chunks = 3" by (simp add: ch)
  have l3: "length out2 = 2" by (simp add: o2)
  have sg: "seg = take 3 (drop 2 ?out)"
    using segdef unfolding l1 l2 .
  have n: "length ?out = 2 + 3 + 2"
    using len unfolding l1 l2 l3 .
  have p3: "map page_content (take 3 (drop 2 ?out)) = [''p'', ''q'', ''r'']"
    using pc unfolding sg ch .
  have i3: "map chunk_index_of (take 3 (drop 2 ?out)) = [Some 0, Some 1, Some 2]"
    using idx unfolding sg l2 by (simp add: upt_rec)
  have t3: "\<forall>c \<in> set (take 3 (drop 2 ?out)). total_chunks_of c = Some 3"
    using tot unfolding sg l2 by simp
  have els: "take 3 (drop 2 ?out) =
      [chunk_doc doc_b 0 3 ''p'', chunk_doc doc_b 1 3 ''q'', chunk_doc doc_b 2 3 ''r'']"
    by (simp add: chunk_docs_def upt_rec numeral_3_eq_3 numeral_2_eq_2)
  have "map total_chunks_of (take 3 (drop 2 ?out)) = [Some 3, Some 3, Some 3]"
    using t3 unfolding els by simp
  with run n p3 i3 show ?thesis by blast
qed

subsection \<open>The output as a concatenation\<close>

text \<open>
  Claim C2. For every document sequence and every strategy that returns the chunk
  lists \<open>css\<close> on the documents, the workflow returns the concatenation of the
  per-document chunk lists, in document order and, inside a document, in chunk order
  (the contents of the output are the chunk texts in that order); the length of the
  output is the sum of the per-document chunk counts; and every chunk document of the
  \<open>k\<close>-th document records as \<open>total_chunks\<close> the chunk count of that document, not
  the length of the whole output.
\<close>

theorem output_is_concat_of_per_document_lists:
  assumes "map (\<lambda>d. splitter (page_content d)) docs = map Inr css"
  shows "process_documents_workflow docs splitter = Inr (concat (map2 chunk_docs docs css))
       \<and> map page_content (concat (map2 chunk_docs docs css)) = concat css
       \<and> length (concat (map2 chunk_docs docs css)) = sum_list (map length css)
       \<and> (\<forall>k < length docs. \<forall>c \<in> set (chunk_docs (docs ! k) (css ! k)).
             total_chunks_of c = Some (int (length (css ! k))))"
proof -
  have len: "length docs = length css"
    using assms by (metis length_map)
  show ?thesis
    using workflow_all_split [OF assms] page_content_concat_chunk_docs [OF len]
      length_concat_chunk_docs [OF len]
    by (simp add: total_chunks_of_chunk_docs)
qed

text \<open>
  The theorem at the documents \<open>doc_a, doc_b\<close>: five chunk documents in all, and the
  three of \<open>doc_b\<close> record 3.
\<close>

theorem output_is_concat_of_per_document_lists_witness:
  "process_documents_workflow [doc_a, doc_b] example_splitter =
     Inr (chunk_docs doc_a [''x'', ''y''] @ chunk_docs doc_b [''p'', ''q'', ''r''])
   \<and> map page_content (chunk_docs doc_a [''x'', ''y''] @ chunk_docs doc_b [''p'', ''q'', ''r''])
       = [''x'', ''y'', ''p'', ''q'', ''r'']
   \<and> length (chunk_docs doc_a [''x'', ''y''] @ chunk_docs doc_b [''p'', ''q'', ''r'']) = 2 + 3
   \<and> map total_chunks_of (chunk_docs doc_b [''p'', ''q'', ''r'']) = [Some 3, Some 3, Some 3]"
proof -
  have sp: "map (\<lambda>d. example_splitter (page_content d)) [doc_a, doc_b] =
              map Inr [[''x'', ''y''], [''p'', ''q'', ''r'']]"
    by (simp add: example_defs)
  note inst = output_is_concat_of_per_document_lists [OF sp]
  have run: "process_documents_workflow [doc_a, doc_b] example_splitter =
               Inr (chunk_docs doc_a [''x'', ''y''] @ chunk_docs doc_b [''p'', ''q'', ''r''])"
    using inst by simp
  have pc: "map page_content (chunk_docs doc_a [''x'', ''y''] @ chunk_docs doc_b [''p'', ''q'', ''r''])
              = [''x'', ''y'', ''p'', ''q'', ''r'']"
    using inst by simp
  have ln: "length (chunk_docs doc_a [''x'', ''y''] @ chunk_docs doc_b [''p'', ''q'', ''r'']) = 2 + 3"
    using inst by simp
  have q: "\<forall>k < length [doc_a, doc_b].
             \<forall>c \<in> set (chunk_docs ([doc_a, doc_b] ! k) ([[''x'', ''y''], [''p'', ''q'', ''r'']] ! k)).
               total_chunks_of c = Some (int (length ([[''x'', ''y''], [''p'', ''q'', ''r'']] ! k)))"
    using inst by blast
  have tc: "\<forall>c \<in> set (chunk_docs doc_b [''p'', ''q'', ''r'']). total_chunks_of c = Some 3"
    using spec [OF q, of 1] by simp
  have els: "chunk_docs doc_b [''p'', ''q'', ''r''] =
      [chunk_doc doc_b 0 3 ''p'', chunk_doc doc_b 1 3 ''q'', chunk_doc doc_b 2 3 ''r'']"
    by (simp add: chunk_docs_def upt_rec numeral_3_eq_3 numeral_2_eq_2)
  have "map total_chunks_of (chunk_docs doc_b [''p'', ''q'', ''r'']) = [Some 3, Some 3, Some 3]"
    using tc unfolding els by simp
  with run pc ln show ?thesis by blast
qed

subsection \<open>The metadata merge\<close>

text \<open>
  Claim C3. For every parent document of a run that returns and every chunk made from
  it, the metadata of the chunk document is the parent's metadata merged with the two
  derived keys, the derived keys winning: \<open>chunk_index\<close> and \<open>total_chunks\<close> hold
  the derived values whatever the parent stored under these names, and every other key
  holds what it holds in the parent (and is absent when absent there).
\<close>

theorem chunk_metadata_last_write_wins:
  assumes "process_documents_workflow (ds1 @ d # ds2) splitter = Inr out"
  shows "\<exists>out1 chunks.
           process_documents_workflow ds1 splitter = Inr out1 \<and>
           splitter (page_content d) = Inr chunks \<and>
           length out1 + length chunks \<le> length out \<and>
           (\<forall>i < length chunks.
              metadata (out ! (length out1 + i)) =
                metadata d ++ [''chunk_index'' \<mapsto> IntV (int i),
                               ''total_chunks'' \<mapsto> IntV (int (length chunks))] \<and>
              metadata (out ! (length out1 + i)) ''chunk_index'' = Some (IntV (int i)) \<and>
              metadata (out ! (length out1 + i)) ''total_chunks'' =
                Some (IntV (int (length chunks))) \<and>
              (\<forall>k. k \<noteq> ''chunk_index'' \<and> k \<noteq> ''total_chunks'' \<longrightarrow>
                 metadata (out ! (length out1 + i)) k = metadata d k))"
proof -
  from workflow_split_at [OF assms] obtain out1 chunks out2 where
    pre: "process_documents_workflow ds1 splitter = Inr out1" and
    sp: "splitter (page_content d) = Inr chunks" and
    out: "out = out1 @ chunk_docs d chunks @ out2"
    by blast
  have len: "length out1 + length chunks \<le> length out"
    unfolding out by simp
  have nth: "out ! (length out1 + i) = chunk_doc d i (length chunks) (chunks ! i)"
    if "i < length chunks" for i
    unfolding out using that by (simp add: nth_append nth_chunk_docs)
  have per_chunk:
    "metadata (out ! (length out1 + i)) =
       metadata d ++ [''chunk_index'' \<mapsto> IntV (int i),
                      ''total_chunks'' \<mapsto> IntV (int (length chunks))] \<and>
     metadata (out ! (length out1 + i)) ''chunk_index'' = Some (IntV (int i)) \<and>
     metadata (out ! (length out1 + i)) ''total_chunks'' = Some (IntV (int (length chunks))) \<and>
     (\<forall>k. k \<noteq> ''chunk_index'' \<and> k \<noteq> ''total_chunks'' \<longrightarrow>
        metadata (out ! (length out1 + i)) k = metadata d k)"
    if "i < length chunks" for i
    unfolding nth [OF that]
    using metadata_chunk_doc_merge [of d i "length chunks" "chunks ! i"]
      metadata_chunk_doc_derived [of d i "length chunks" "chunks ! i"]
      metadata_chunk_doc_other [of _ d i "length chunks" "chunks ! i"]
    by blast
  from pre sp len per_chunk show ?thesis by blast
qed

text \<open>
  The theorem at the documents \<open>doc_a, doc_b\<close>, where \<open>doc_b\<close> already stores a
  \<open>chunk_index\<close>: its second chunk stores the derived index 1.
\<close>

theorem chunk_metadata_last_write_wins_witness:
  "metadata doc_b ''chunk_index'' = Some (StrV ''stale'')
   \<and> process_documents_workflow ([doc_a] @ doc_b # []) example_splitter =
       Inr (chunk_docs doc_a [''x'', ''y''] @ chunk_docs doc_b [''p'', ''q'', ''r''])
   \<and> metadata ((chunk_docs doc_a [''x'', ''y''] @ chunk_docs doc_b [''p'', ''q'', ''r'']) ! (2 + 1))
        ''chunk_index'' = Some (IntV 1)
   \<and> metadata ((chunk_docs doc_a [''x'', ''y''] @ chunk_docs doc_b [''p'', ''q'', ''r'']) ! (2 + 1))
        ''total_chunks'' = Some (IntV 3)
   \<and> metadata ((chunk_docs doc_a [''x'', ''y''] @ chunk_docs doc_b [''p'', ''q'', ''r'']) ! (2 + 1))
        ''source'' = Some (StrV ''b.txt'')"
proof -
  let ?out = "chunk_docs doc_a [''x'', ''y''] @ chunk_docs doc_b [''p'', ''q'', ''r'']"
  have stale: "metadata doc_b ''chunk_index'' = Some (StrV ''stale'')"
    by (simp add: example_defs)
  have run: "process_documents_workflow ([doc_a] @ doc_b # []) example_splitter = Inr ?out"
    using example_run_ab by simp
  from chunk_metadata_last_write_wins [OF run] obtain out1 chunks where
    pre: "process_documents_workflow [doc_a] example_splitter = Inr out1" and
    sp: "example_splitter (page_content doc_b) = Inr chunks" and
    all: "\<forall>i < length chunks.
            metadata (?out ! (length out1 + i)) =
              metadata doc_b ++ [''chunk_index'' \<mapsto> IntV (int i),
                                 ''total_chunks'' \<mapsto> IntV (int (length chunks))] \<and>
            metadata (?out ! (length out1 + i)) ''chunk_index'' = Some (IntV (int i)) \<and>
            metadata (?out ! (length out1 + i)) ''total_chunks'' =
              Some (IntV (int (length chunks))) \<and>
            (\<forall>k. k \<noteq> ''chunk_index'' \<and> k \<noteq> ''total_chunks'' \<longrightarrow>
               metadata (?out ! (length out1 + i)) k = metadata doc_b k)"
    by blast
  have o1: "out1 = chunk_docs doc_a [''x'', ''y'']"
    using pre by (simp add: workflow_Cons workflow_Nil then_append_def example_defs)
  have ch: "chunks = [''p'', ''q'', ''r'']"
    using sp by (simp add: example_defs)
  have l1: "length out1 = 2" by (simp add: o1)
  have l2: "length chunks = 3" by (simp add: ch)
  have at1: "metadata (?out ! (2 + 1)) ''chunk_index'' = Some (IntV 1) \<and>
             metadata (?out ! (2 + 1)) ''total_chunks'' = Some (IntV 3) \<and>
             (\<forall>k. k \<noteq> ''chunk_index'' \<and> k \<noteq> ''total_chunks'' \<longrightarrow>
                metadata (?out ! (2 + 1)) k = metadata doc_b k)"
    using spec [OF all, of 1] unfolding l1 l2 by simp
  then have "metadata (?out ! (2 + 1)) ''source'' = metadata doc_b ''source''"
    by simp
  then have src: "metadata (?out ! (2 + 1)) ''source'' = Some (StrV ''b.txt'')"
    by (simp add: example_defs)
  from stale run at1 src show ?thesis by blast
qed

subsection \<open>A failing strategy\<close>

text \<open>
  Claim C5, as stated, asks that the surfaced exception carries an index or an
  identifier locating the offending document. The workflow adds nothing to the
  exception of the strategy, and the strategy sees the text only: the two runs below
  fail on different documents (other metadata, other positions) and surface the same
  exception, so no reading of the exception gives the position in both runs.
\<close>

theorem surfaced_error_does_not_locate_document:
  "process_documents_workflow [doc_bad1, doc_a] example_splitter = Inl ''boom''
   \<and> process_documents_workflow [doc_a, doc_bad2] example_splitter = Inl ''boom''
   \<and> metadata doc_bad1 ''source'' = Some (StrV ''c.txt'')
   \<and> metadata doc_bad2 ''source'' = Some (StrV ''d.txt'')
   \<and> \<not> (\<exists>locate. error_locates locate example_splitter [doc_bad1, doc_a]
                   \<and> error_locates locate example_splitter [doc_a, doc_bad2])"
proof -
  have r1: "process_documents_workflow [doc_bad1, doc_a] example_splitter = Inl ''boom''"
    by (simp add: workflow_Cons example_defs)
  have r2: "process_documents_workflow [doc_a, doc_bad2] example_splitter = Inl ''boom''"
    by (simp add: workflow_Cons workflow_Nil then_append_def example_defs)
  have no: False
    if l1: "error_locates locate example_splitter [doc_bad1, doc_a]"
      and l2: "error_locates locate example_splitter [doc_a, doc_bad2]" for locate
  proof -
    from l1 have a: "locate ''boom'' < 2 \<and>
        isl (example_splitter (page_content ([doc_bad1, doc_a] ! locate ''boom'')))"
      by (simp add: error_locates_def r1)
    from l2 have b: "locate ''boom'' < 2 \<and>
        isl (example_splitter (page_content ([doc_a, doc_bad2] ! locate ''boom'')))"
      by (simp add: error_locates_def r2)
    from a have "locate ''boom'' = 0 \<or> locate ''boom'' = 1" by auto
    then show False
    proof
      assume "locate ''boom'' = 0"
      with b show False by (simp add: example_defs)
    next
      assume "locate ''boom'' = 1"
      with a show False by (simp add: example_defs)
    qed
  qed
  have s1: "metadata doc_bad1 ''source'' = Some (StrV ''c.txt'')" by (simp add: example_defs)
  have s2: "metadata doc_bad2 ''source'' = Some (StrV ''d.txt'')" by (simp add: example_defs)
  from r1 r2 s1 s2 no show ?thesis by blast
qed

text \<open>
  Claim C5, amended. If the strategy raises on some document of the sequence, the
  workflow raises the exception of the first document on which the strategy raises,
  unchanged; the document is neither caught nor skipped, and the run returns no output
  at all, whatever the documents before it produced. The exception is the strategy's
  own: the workflow adds no index and no identifier of the document to it.
\<close>

theorem strategy_failure_aborts_batch:
  assumes "d \<in> set docs" and "isl (splitter (page_content d))"
  shows "\<exists>ds1 d' ds2 e.
           docs = ds1 @ d' # ds2 \<and>
           (\<forall>x \<in> set ds1. \<not> isl (splitter (page_content x))) \<and>
           splitter (page_content d') = Inl e \<and>
           process_documents_workflow docs splitter = Inl e"
proof -
  from assms have "\<exists>x \<in> set docs. isl (splitter (page_content x))"
    by blast
  from split_list_first_prop [where P = "\<lambda>x. isl (splitter (page_content x))", OF this]
  obtain ds1 d' ds2 where
    docs: "docs = ds1 @ d' # ds2" and
    bad: "isl (splitter (page_content d'))" and
    ok: "\<forall>x \<in> set ds1. \<not> isl (splitter (page_content x))"
    by blast
  from bad obtain e where e: "splitter (page_content d') = Inl e"
    by (cases "splitter (page_content d')") auto
  from workflow_first_failure [OF ok e] docs ok e show ?thesis
    by blast
qed

text \<open>The theorem at the documents \<open>doc_a, doc_bad2, doc_b\<close>.\<close>

theorem strategy_failure_aborts_batch_witness:
  "doc_bad2 \<in> set [doc_a, doc_bad2, doc_b]
   \<and> isl (example_splitter (page_content doc_bad2))
   \<and> process_documents_workflow [doc_a, doc_bad2, doc_b] example_splitter = Inl ''boom''"
proof -
  have m: "doc_bad2 \<in> set [doc_a, doc_bad2, doc_b]" by simp
  have f: "isl (example_splitter (page_content doc_bad2))" by (simp add: example_defs)
  from strategy_failure_aborts_batch
         [of doc_bad2 "[doc_a, doc_bad2, doc_b]" example_splitter, OF m f]
  obtain d' :: Document and e where
    sp: "example_splitter (page_content d') = Inl e" and
    run: "process_documents_workflow [doc_a, doc_bad2, doc_b] example_splitter = Inl e"
    by blast
  have "e = ''boom''"
    using sp by (simp add: example_splitter_def split: if_splits)
  with m f run show ?thesis by simp
qed

subsection \<open>Empty documents\<close>

text \<open>
  Claim C9. For a strategy that returns no chunk for the empty text (what the
  specification requires of every strategy), a document whose content is the empty
  string produces no chunk document, and the run on a sequence containing it is the
  run on the sequence without it: the chunk documents of the neighbouring documents,
  their \<open>chunk_index\<close> and \<open>total_chunks\<close> included, are the same.
\<close>

theorem empty_document_yields_no_chunks:
  assumes "page_content d = []" and "splitter [] = Inr []"
  shows "process_documents_workflow [d] splitter = Inr []
       \<and> process_documents_workflow (ds1 @ d # ds2) splitter =
           process_documents_workflow (ds1 @ ds2) splitter"
proof -
  have one: "process_documents_workflow [d] splitter = Inr []"
    using assms by (simp add: workflow_Cons workflow_Nil then_append_def)
  have "process_documents_workflow (d # ds2) splitter = process_documents_workflow ds2 splitter"
    using assms
    by (cases "process_documents_workflow ds2 splitter")
       (simp_all add: workflow_Cons then_append_def)
  then have "process_documents_workflow (ds1 @ d # ds2) splitter =
             process_documents_workflow (ds1 @ ds2) splitter"
    by (simp add: workflow_append)
  with one show ?thesis by simp
qed

text \<open>The theorem at the documents \<open>doc_a, doc_empty, doc_b\<close>.\<close>

theorem empty_document_yields_no_chunks_witness:
  "page_content doc_empty = [] \<and> example_splitter [] = Inr []
   \<and> process_documents_workflow [doc_empty] example_splitter = Inr []
   \<and> process_documents_workflow ([doc_a] @ doc_empty # [doc_b]) example_splitter =
       Inr (chunk_docs doc_a [''x'', ''y''] @ chunk_docs doc_b [''p'', ''q'', ''r''])"
proof -
  have c: "page_content doc_empty = []" by (simp add: example_defs)
  have s: "example_splitter [] = Inr []" by (simp add: example_defs)
  from empty_document_yields_no_chunks
         [of doc_empty example_splitter "[doc_a]" "[doc_b]", OF c s] c s example_run_ab
  show ?thesis by simp
qed

subsection \<open>Concatenation of document sequences\<close>

text \<open>
  Claim C10. For every strategy and every two document sequences, the workflow on
  their concatenation is the workflow on the first followed by the workflow on the
  second: when both return, the output is the first output followed by the second,
  and otherwise the first exception raised is the result. The empty document
  sequence gives the empty output.
\<close>

theorem workflow_concat_homomorphism:
  "process_documents_workflow (ds1 @ ds2) splitter =
     then_append (process_documents_workflow ds1 splitter)
                 (process_documents_workflow ds2 splitter)
   \<and> process_documents_workflow [] splitter = Inr []"
  by (simp add: workflow_append workflow_Nil)

end
